theory Spec2Isabelle
  imports Complex_Main
begin

chapter \<open>In-vitro electrophysiology analysis scripts\<close>

text \<open>
  A model of the numeric core of four stand-alone analysis scripts:
  \<^verbatim>\<open>action_potential_analysis.py\<close> (prefix \<open>ap\<close> where a name occurs in several
  scripts), \<^verbatim>\<open>pharmacological_modulation_analysis.py\<close> (\<open>pm\<close>),
  \<^verbatim>\<open>network_dynamics_analysis.py\<close> (\<open>nd\<close>) and
  \<^verbatim>\<open>synaptic_input_output_analysis.py\<close> (\<open>io\<close>).

  The scripts are sequences of calls into numeric libraries. Where a property depends
  on what a library routine computes (peak finding, the filter loop, the argument
  checks of the filter design, the interval computation), the routine is modelled
  after its implementation; where it depends only on whether a routine returns or
  raises (file readers, the least-squares optimizer), the routine is a parameter.
  Samples, times and rates are real numbers: floating-point rounding, infinities and
  NaN are outside the model. Plotting and logging are not modelled.
\<close>

section \<open>Python exceptions as values\<close>

text \<open>
  An exception is modelled by the method resolution order of its class (the class name
  first, then its base classes) and the exception it was chained from
  (\<^verbatim>\<open>raise X(...) from e\<close>). Messages are not modelled. A call that may raise
  returns \<open>pyexc + 'a\<close>, with \<open>Inl\<close> for the exception.
\<close>

datatype pyexc = PyExc (exc_mro: "string list") (exc_cause: "pyexc option")

type_synonym 'a result = "pyexc + 'a"

definition isinstance :: "pyexc \<Rightarrow> string \<Rightarrow> bool" where
  "isinstance e cls = (cls \<in> set (exc_mro e))"

definition raises :: "'a result \<Rightarrow> string \<Rightarrow> bool" where
  "raises r cls = (case r of Inl e \<Rightarrow> isinstance e cls | Inr _ \<Rightarrow> False)"

definition ValueError :: pyexc where
  "ValueError = PyExc [''ValueError'', ''Exception'', ''BaseException''] None"

definition RuntimeError :: pyexc where
  "RuntimeError = PyExc [''RuntimeError'', ''Exception'', ''BaseException''] None"

definition FileNotFoundError :: pyexc where
  "FileNotFoundError =
     PyExc [''FileNotFoundError'', ''OSError'', ''Exception'', ''BaseException''] None"

definition IndexError :: pyexc where
  "IndexError = PyExc [''IndexError'', ''LookupError'', ''Exception'', ''BaseException''] None"

definition KeyError :: pyexc where
  "KeyError = PyExc [''KeyError'', ''LookupError'', ''Exception'', ''BaseException''] None"

text \<open>
  The two exception classes the repository declares, both in
  \<^verbatim>\<open>pharmacological_modulation_analysis.py\<close>, both direct subclasses of
  \<^verbatim>\<open>Exception\<close>. Every raise of them is of the form \<^verbatim>\<open>raise C(...) from e\<close>
  or a plain \<^verbatim>\<open>raise C(...)\<close>.
\<close>

definition DataLoadingError :: "pyexc option \<Rightarrow> pyexc" where
  "DataLoadingError cause = PyExc [''DataLoadingError'', ''Exception'', ''BaseException''] cause"

definition AnalysisError :: "pyexc option \<Rightarrow> pyexc" where
  "AnalysisError cause = PyExc [''AnalysisError'', ''Exception'', ''BaseException''] cause"

section \<open>Loading recordings\<close>

text \<open>
  The readers of the file formats (PyABF, Neo, pandas) are parameters of the model:
  given a path, a reader returns the parsed file or raises. What a reader hands over
  as the sampling rate is a Python value whose type the validation inspects: a Python
  \<^verbatim>\<open>int\<close>, a \<^verbatim>\<open>float\<close> (or a subclass such as \<^verbatim>\<open>numpy.float64\<close>), or
  some other numeric object such as a zero-dimensional array.
\<close>

datatype pynum = PyInt int | PyFloat real | OtherNumber real

record abf =
  abf_data :: "real list list"
  abf_dataRate :: pynum

record analog_signal =
  magnitude :: "real list list"
  sampling_rate_magnitude :: pynum

type_synonym segment = "analog_signal list"

type_synonym block = "segment list"

type_synonym dataframe = "string \<rightharpoonup> real list"

record readers =
  pyabf_ABF :: "string \<Rightarrow> abf result"
  neo_read_block :: "string \<Rightarrow> block result"
  pandas_read_csv :: "string \<Rightarrow> dataframe result"

text \<open>
  The statements that both scripts run on an ABF file:
  \<^verbatim>\<open>abf = pyabf.ABF(file_path); signal = abf.data[0]; sampling_rate = abf.dataRate\<close>.
  Indexing an array without rows raises \<^verbatim>\<open>IndexError\<close>.
\<close>

definition read_abf :: "readers \<Rightarrow> string \<Rightarrow> (real list \<times> pynum) result" where
  "read_abf rd file_path =
     (case pyabf_ABF rd file_path of
        Inl e \<Rightarrow> Inl e
      | Inr abf \<Rightarrow>
          (case abf_data abf of
             [] \<Rightarrow> Inl IndexError
           | signal # _ \<Rightarrow> Inr (signal, abf_dataRate abf)))"

text \<open>
  The statements that the scripts run on a Neo file: the first analog signal of the
  first segment of the block, its samples flattened row by row.
\<close>

definition read_neo :: "readers \<Rightarrow> string \<Rightarrow> (real list \<times> pynum) result" where
  "read_neo rd file_path =
     (case neo_read_block rd file_path of
        Inl e \<Rightarrow> Inl e
      | Inr block \<Rightarrow>
          (case block of
             [] \<Rightarrow> Inl IndexError
           | segment # _ \<Rightarrow>
               (case segment of
                  [] \<Rightarrow> Inl IndexError
                | sig # _ \<Rightarrow> Inr (concat (magnitude sig), sampling_rate_magnitude sig))))"

subsection \<open>action\_potential\_analysis.py\<close>

text \<open>
  \<^verbatim>\<open>load_data\<close> looks the file type up in a table of loaders and calls the loader;
  an unknown type raises \<^verbatim>\<open>ValueError\<close>. Neither \<^verbatim>\<open>load_data\<close> nor the loaders
  contain a \<^verbatim>\<open>try\<close>.
\<close>

definition load_abf_data :: "readers \<Rightarrow> string \<Rightarrow> (real list \<times> pynum) result" where
  "load_abf_data rd file_path = read_abf rd file_path"

definition load_neo_data :: "readers \<Rightarrow> string \<Rightarrow> (real list \<times> pynum) result" where
  "load_neo_data rd file_path = read_neo rd file_path"

definition ap_load_data :: "readers \<Rightarrow> string \<Rightarrow> string \<Rightarrow> (real list \<times> pynum) result" where
  "ap_load_data rd file_path file_type =
     (case map_of [(''abf'', load_abf_data), (''neo'', load_neo_data)] file_type of
        Some loader \<Rightarrow> loader rd file_path
      | None \<Rightarrow> Inl ValueError)"

subsection \<open>pharmacological\_modulation\_analysis.py\<close>

text \<open>
  \<^verbatim>\<open>validate_data\<close>: the signal is a one-dimensional array by construction (a row
  of a two-dimensional array, or the result of \<^verbatim>\<open>flatten\<close>), so the first check
  passes; the sampling rate must be an \<^verbatim>\<open>int\<close> or \<^verbatim>\<open>float\<close> and positive.
\<close>

definition validate_data :: "real list \<Rightarrow> pynum \<Rightarrow> unit result" where
  "validate_data signal sampling_rate =
     (case sampling_rate of
        PyInt n \<Rightarrow> if n \<le> 0 then Inl ValueError else Inr ()
      | PyFloat r \<Rightarrow> if r \<le> 0 then Inl ValueError else Inr ()
      | OtherNumber _ \<Rightarrow> Inl ValueError)"

text \<open>
  \<^verbatim>\<open>try: ... except Exception as e: raise DataLoadingError(...) from e\<close>: an
  exception that is an instance of \<^verbatim>\<open>Exception\<close> is replaced by a
  \<^verbatim>\<open>DataLoadingError\<close> chained from it; any other one passes through.
\<close>

definition wrap_loading_error :: "'a result \<Rightarrow> 'a result" where
  "wrap_loading_error r =
     (case r of
        Inl e \<Rightarrow> if isinstance e ''Exception'' then Inl (DataLoadingError (Some e)) else Inl e
      | Inr v \<Rightarrow> Inr v)"

definition pm_load_data :: "readers \<Rightarrow> string \<Rightarrow> string \<Rightarrow> (real list \<times> pynum) result" where
  "pm_load_data rd file_path file_type =
     (case (if file_type = ''abf'' then wrap_loading_error (read_abf rd file_path)
            else if file_type = ''neo'' then wrap_loading_error (read_neo rd file_path)
            else Inl (DataLoadingError None)) of
        Inl e \<Rightarrow> Inl e
      | Inr (signal, sampling_rate) \<Rightarrow>
          (case validate_data signal sampling_rate of
             Inl e \<Rightarrow> Inl e
           | Inr _ \<Rightarrow> Inr (signal, sampling_rate)))"

subsection \<open>network\_dynamics\_analysis.py and synaptic\_input\_output\_analysis.py\<close>

text \<open>
  The third loader replaces every \<^verbatim>\<open>Exception\<close> by a fresh \<^verbatim>\<open>ValueError\<close>;
  the fourth is a bare call of \<^verbatim>\<open>pandas.read_csv\<close>.
\<close>

definition nd_load_data :: "readers \<Rightarrow> string \<Rightarrow> real list result" where
  "nd_load_data rd file_path =
     (case read_neo rd file_path of
        Inl e \<Rightarrow> if isinstance e ''Exception'' then Inl ValueError else Inl e
      | Inr (analog_signal, _) \<Rightarrow> Inr analog_signal)"

definition io_load_data :: "readers \<Rightarrow> string \<Rightarrow> dataframe result" where
  "io_load_data rd file_path = pandas_read_csv rd file_path"

subsection \<open>A file system without the requested file\<close>

text \<open>
  The readers as they behave when the path does not exist: each of them raises. The
  class of the exception depends on the library and its version; the model takes
  \<^verbatim>\<open>ValueError\<close> for PyABF (``ABF file does not exist'') and
  \<^verbatim>\<open>FileNotFoundError\<close> for the other two.
\<close>

definition missing_file_readers :: readers where
  "missing_file_readers =
     \<lparr>pyabf_ABF = (\<lambda>file_path. Inl ValueError),
      neo_read_block = (\<lambda>file_path. Inl FileNotFoundError),
      pandas_read_csv = (\<lambda>file_path. Inl FileNotFoundError)\<rparr>"

section \<open>Interspike intervals (action\_potential\_analysis.py)\<close>

text \<open>
  \<^verbatim>\<open>numpy.diff\<close> of a one-dimensional array \<open>a\<close> is \<^verbatim>\<open>a[1:] - a[:-1]\<close>;
  both slices of an array with fewer than two elements are empty.
\<close>

definition np_diff :: "real list \<Rightarrow> real list" where
  "np_diff a = map2 (\<lambda>y x. y - x) (drop 1 a) (take (length a - 1) a)"

text \<open>
  \<^verbatim>\<open>elephant.statistics.isi\<close> returns \<^verbatim>\<open>numpy.diff\<close> of the spike train; when
  an interval is negative it only emits a warning.
\<close>

definition isi :: "real list \<Rightarrow> real list" where
  "isi spiketrain = np_diff spiketrain"

text \<open>
  \<^verbatim>\<open>compute_isi\<close>: the spike times are tagged as seconds, the intervals
  are rescaled to milliseconds. The function contains no \<^verbatim>\<open>raise\<close>
  and no check of its argument.
\<close>

definition rescale_s_to_ms :: "real list \<Rightarrow> real list" where
  "rescale_s_to_ms q = map (\<lambda>v. v * 1000) q"

definition compute_isi :: "real list \<Rightarrow> real list result" where
  "compute_isi spike_times = Inr (rescale_s_to_ms (isi spike_times))"

section \<open>Spike detection (action\_potential\_analysis.py)\<close>

text \<open>
  \<^verbatim>\<open>detect_action_potentials\<close> is two lines: a call of
  \<^verbatim>\<open>scipy.signal.find_peaks(-signal, height=abs(threshold))\<close> and the division of
  the returned indices by the sampling rate. What it computes is decided by the library
  routine, which is modelled here after SciPy's implementation: the scan
  \<^verbatim>\<open>_local_maxima_1d\<close> followed by the selection by height. Samples are real
  numbers; rounding, infinities and NaN of floating point are not modelled.

  The inner loop of the scan: starting behind sample \<open>i\<close>, advance while the sample
  equals \<open>x[i]\<close> and the last index \<open>i_max = len(x) - 1\<close> is not reached:
  \<^verbatim>\<open>while i_ahead < i_max and x[i_ahead] == x[i]: i_ahead += 1\<close>
\<close>

function look_ahead :: "real list \<Rightarrow> nat \<Rightarrow> nat \<Rightarrow> nat" where
  "look_ahead x i i_ahead =
     (if i_ahead < length x - 1 \<and> x ! i_ahead = x ! i
      then look_ahead x i (i_ahead + 1) else i_ahead)"
  by pat_completeness auto
termination
  by (relation "measure (\<lambda>(x, i, i_ahead). length x - i_ahead)") auto

declare look_ahead.simps [simp del]

text \<open>
  The outer loop, from sample \<open>i\<close> on. The first and the last sample are never
  maxima: the scan starts at \<open>i = 1\<close> and runs while \<open>i < i_max\<close> (for an empty
  array \<open>i_max\<close> is \<open>-1\<close> in the library and \<open>0\<close> here; the loop is not entered
  either way). A sample that is higher than its predecessor opens a candidate; the
  candidate is a maximum when the next unequal sample is lower, and is then recorded
  as the triple (midpoint, left edge, right edge) with
  \<^verbatim>\<open>midpoint = (left_edge + right_edge) // 2\<close>, after which the scan resumes
  behind \<open>i_ahead\<close>.
\<close>

function local_maxima_from :: "real list \<Rightarrow> nat \<Rightarrow> (nat \<times> nat \<times> nat) list" where
  "local_maxima_from x i =
     (if i < length x - 1 then
        (if x ! (i - 1) < x ! i then
           (let i_ahead = look_ahead x i (i + 1) in
            if x ! i_ahead < x ! i
            then ((i + (i_ahead - 1)) div 2, i, i_ahead - 1) # local_maxima_from x (i_ahead + 1)
            else local_maxima_from x (i + 1))
         else local_maxima_from x (i + 1))
      else [])"
  by pat_completeness auto
termination
proof (relation "measure (\<lambda>(x, i). length x - i)")
  have ahead: "i_ahead \<le> look_ahead x i i_ahead" for x i i_ahead
    by (induction x i i_ahead rule: look_ahead.induct)
      (subst look_ahead.simps, auto dest: Suc_leD)
  fix x :: "real list" and i i_ahead :: nat
  assume "i < length x - 1" and "i_ahead = look_ahead x i (i + 1)"
  with ahead [of "i + 1" x i]
  show "((x, i_ahead + 1), x, i) \<in> measure (\<lambda>(x, i). length x - i)"
    by simp
qed auto

declare local_maxima_from.simps [simp del]

definition local_maxima_1d :: "real list \<Rightarrow> (nat \<times> nat \<times> nat) list" where
  "local_maxima_1d x = local_maxima_from x 1"

text \<open>
  \<^verbatim>\<open>find_peaks(x, height=h)\<close> with a scalar \<open>h\<close>: the midpoints of the scan, of
  which those are kept whose height satisfies \<^verbatim>\<open>h <= x[peak]\<close>. The function
  returns the pair (peaks, properties); the caller takes component 0.
\<close>

definition find_peaks :: "real list \<Rightarrow> real \<Rightarrow> nat list" where
  "find_peaks x height =
     (let peaks = map fst (local_maxima_1d x) in filter (\<lambda>p. height \<le> x ! p) peaks)"

definition detect_action_potentials :: "real list \<Rightarrow> real \<Rightarrow> real \<Rightarrow> real list" where
  "detect_action_potentials signal sampling_rate threshold =
     (let spike_indices = find_peaks (map uminus signal) \<bar>threshold\<bar>
      in map (\<lambda>i. real i / sampling_rate) spike_indices)"

subsection \<open>What a peak is\<close>

text \<open>
  A flat peak of \<open>x\<close> is a run of equal samples \<open>x[l..r]\<close> (one sample when
  \<open>l = r\<close>) whose neighbours on both sides exist and are strictly lower. Its reported
  location is the middle sample, rounded down.
\<close>

definition flat_peak :: "real list \<Rightarrow> nat \<Rightarrow> nat \<Rightarrow> bool" where
  "flat_peak x l r \<longleftrightarrow>
     0 < l \<and> l \<le> r \<and> r + 1 < length x \<and> x ! (l - 1) < x ! l
     \<and> (\<forall>k \<in> {l..r}. x ! k = x ! l) \<and> x ! (r + 1) < x ! l"

definition is_peak :: "real list \<Rightarrow> nat \<Rightarrow> bool" where
  "is_peak x m \<longleftrightarrow>
     (\<exists>l \<in> {1..m}. \<exists>r \<in> {m..<length x - 1}. flat_peak x l r \<and> m = (l + r) div 2)"

definition peak_indices :: "real list \<Rightarrow> nat list" where
  "peak_indices x = filter (is_peak x) [0..<length x]"

definition peaks_from :: "real list \<Rightarrow> nat \<Rightarrow> (nat \<times> nat \<times> nat) set" where
  "peaks_from x i = {((l + r) div 2, l, r) | l r. flat_peak x l r \<and> i \<le> l}"

text \<open>
  The spike times as claim C3 words them: the peak indices of the sign-inverted signal
  whose height exceeds the magnitude of the threshold, each divided by the sampling
  rate.
\<close>

definition spike_times_exceeding :: "real list \<Rightarrow> real \<Rightarrow> real \<Rightarrow> real list" where
  "spike_times_exceeding signal sampling_rate threshold =
     map (\<lambda>i. real i / sampling_rate)
       (filter (\<lambda>i. \<bar>threshold\<bar> < map uminus signal ! i) (peak_indices (map uminus signal)))"

section \<open>Preprocessing: detrending and bandpass filtering\<close>

text \<open>
  Both preprocessing paths design a Butterworth bandpass with
  \<^verbatim>\<open>butter(4, [freq_min, freq_max], btype='bandpass', fs=sampling_rate, output='sos')\<close>
  and run it with \<^verbatim>\<open>sosfilt(sos, signal)\<close>. Neither path checks the cutoffs
  itself; the only check is the one inside \<^verbatim>\<open>butter\<close>.

  A second-order section is stored by its five free coefficients
  \<open>(b0, b1, b2, a1, a2)\<close>; \<^verbatim>\<open>butter\<close> returns sections normalised to
  \<open>a0 = 1\<close>, which is what \<^verbatim>\<open>sosfilt\<close> requires. The computation of the
  coefficients is a parameter of the model (\<open>design\<close>, applied to the order and the
  two normalised cutoffs): no property proved here depends on their values.
\<close>

type_synonym sos_section = "real \<times> real \<times> real \<times> real \<times> real"

type_synonym sos_design = "nat \<Rightarrow> real \<Rightarrow> real \<Rightarrow> sos_section list"

text \<open>
  The argument checks of \<^verbatim>\<open>butter\<close> for a digital bandpass with \<open>fs\<close> given, in
  the library's order: the cutoffs are normalised to \<open>Wn = 2 * Wn / fs\<close>; a cutoff
  \<open>Wn <= 0\<close> is rejected; \<open>not Wn[0] < Wn[1]\<close> is rejected; a cutoff \<open>Wn >= 1\<close>
  is rejected; each with \<^verbatim>\<open>ValueError\<close>. With \<open>fs = 0\<close> the normalised cutoffs
  are infinite or NaN and fail one of the checks.
\<close>

definition butter :: "sos_design \<Rightarrow> nat \<Rightarrow> real \<times> real \<Rightarrow> real \<Rightarrow> sos_section list result" where
  "butter design N Wn fs =
     (if fs = 0 then Inl ValueError
      else
        let w0 = 2 * fst Wn / fs; w1 = 2 * snd Wn / fs in
        if w0 \<le> 0 \<or> w1 \<le> 0 then Inl ValueError
        else if \<not> w0 < w1 then Inl ValueError
        else if w0 \<ge> 1 \<or> w1 \<ge> 1 then Inl ValueError
        else Inr (design N w0 w1))"

text \<open>
  The filter loop of \<^verbatim>\<open>sosfilt\<close> (direct form II transposed). One section, one
  sample, with the section's two delay values \<open>zi\<close>:
  \<^verbatim>\<open>x_new = b0 * x_cur + zi[0]\<close>,
  \<^verbatim>\<open>zi[0] = b1 * x_cur - a1 * x_new + zi[1]\<close>,
  \<^verbatim>\<open>zi[1] = b2 * x_cur - a2 * x_new\<close>.
\<close>

fun section_step :: "sos_section \<Rightarrow> real \<times> real \<Rightarrow> real \<Rightarrow> real \<times> (real \<times> real)" where
  "section_step (b0, b1, b2, a1, a2) (z0, z1) x_cur =
     (let x_new = b0 * x_cur + z0
      in (x_new, (b1 * x_cur - a1 * x_new + z1, b2 * x_cur - a2 * x_new)))"

text \<open>One sample through all sections, each section feeding the next.\<close>

fun cascade_step :: "sos_section list \<Rightarrow> (real \<times> real) list \<Rightarrow> real
    \<Rightarrow> real \<times> (real \<times> real) list" where
  "cascade_step (s # sos) (z # zi) x_cur =
     (let (x_new, z') = section_step s z x_cur;
          (y, zi') = cascade_step sos zi x_new
      in (y, z' # zi'))"
| "cascade_step _ _ x_cur = (x_cur, [])"

text \<open>The loop over the samples; the delay values are carried from sample to sample.\<close>

fun sosfilt_loop :: "sos_section list \<Rightarrow> (real \<times> real) list \<Rightarrow> real list \<Rightarrow> real list" where
  "sosfilt_loop sos zi [] = []"
| "sosfilt_loop sos zi (x_n # x) =
     (let (y, zi') = cascade_step sos zi x_n in y # sosfilt_loop sos zi' x)"

text \<open>\<^verbatim>\<open>sosfilt\<close> without initial conditions starts from zero delay values.\<close>

definition sosfilt :: "sos_section list \<Rightarrow> real list \<Rightarrow> real list" where
  "sosfilt sos x = sosfilt_loop sos (replicate (length sos) (0, 0)) x"

text \<open>
  \<^verbatim>\<open>scipy.signal.detrend\<close> with its defaults subtracts the least-squares line
  fitted over the sample positions \<open>1/N, 2/N, ..., 1\<close>. For a single sample the fit
  is exact and the result is zero.
\<close>

definition detrend :: "real list \<Rightarrow> real list" where
  "detrend data =
     (let N = length data;
          t = map (\<lambda>i. real i / real N) [1..<N + 1];
          t_mean = sum_list t / real N;
          y_mean = sum_list data / real N;
          sxx = sum_list (map (\<lambda>u. (u - t_mean) * (u - t_mean)) t);
          sxy = sum_list (map2 (\<lambda>u y. (u - t_mean) * (y - y_mean)) t data);
          slope = (if sxx = 0 then 0 else sxy / sxx);
          intercept = y_mean - slope * t_mean
      in map2 (\<lambda>u y. y - (intercept + slope * u)) t data)"

text \<open>
  The libraries do not accept an empty array here (depending on the version,
  \<^verbatim>\<open>detrend\<close> or \<^verbatim>\<open>sosfilt\<close> fails on the reshape of a zero-length axis);
  a recording has at least one sample, and the statements about filtering below are
  made for non-empty signals only. On the empty list the functions above return the
  empty list.
\<close>

subsection \<open>action\_potential\_analysis.py\<close>

definition bandpass_filter :: "sos_design \<Rightarrow> real list \<Rightarrow> real \<Rightarrow> real \<Rightarrow> real
    \<Rightarrow> real list result" where
  "bandpass_filter design signal sampling_rate freq_min freq_max =
     (case butter design 4 (freq_min, freq_max) sampling_rate of
        Inl e \<Rightarrow> Inl e
      | Inr sos \<Rightarrow> Inr (sosfilt sos signal))"

definition ap_preprocess_signal :: "sos_design \<Rightarrow> real list \<Rightarrow> real \<Rightarrow> bool \<Rightarrow> real \<Rightarrow> real
    \<Rightarrow> real list result" where
  "ap_preprocess_signal design signal sampling_rate detrend_signal freq_min freq_max =
     (let signal = (if detrend_signal then detrend signal else signal)
      in bandpass_filter design signal sampling_rate freq_min freq_max)"

subsection \<open>pharmacological\_modulation\_analysis.py\<close>

text \<open>The same steps written out in one function; the log entry is not modelled.\<close>

definition pm_preprocess_signal :: "sos_design \<Rightarrow> real list \<Rightarrow> real \<Rightarrow> bool \<Rightarrow> real \<Rightarrow> real
    \<Rightarrow> real list result" where
  "pm_preprocess_signal design signal sampling_rate detrend_signal freq_min freq_max =
     (let signal = (if detrend_signal then detrend signal else signal)
      in case butter design 4 (freq_min, freq_max) sampling_rate of
           Inl e \<Rightarrow> Inl e
         | Inr sos \<Rightarrow> Inr (sosfilt sos signal))"

section \<open>Curve fitting\<close>

text \<open>
  Both fitting functions define a sigmoid with three parameters and hand it to
  \<^verbatim>\<open>scipy.optimize.curve_fit\<close>. The optimizer is a parameter of the model: it
  receives the call (model function, data, initial guess, bounds) and a state of its
  own, and returns the fit or raises, together with its new state. On failure to
  converge \<^verbatim>\<open>curve_fit\<close> raises \<^verbatim>\<open>RuntimeError\<close>.
\<close>

type_synonym params = "real \<times> real \<times> real"

record curve_fit_call =
  model :: "real \<Rightarrow> params \<Rightarrow> real"
  xdata :: "real list"
  ydata :: "real list"
  p0 :: "params option"
  bounds :: "(params \<times> params) option"

type_synonym fit_result = "params \<times> real list list"

type_synonym 's optimizer = "curve_fit_call \<Rightarrow> 's \<Rightarrow> fit_result result \<times> 's"

text \<open>
  An optimizer instrumented with a counter of its invocations, to state how often a
  fitting function calls it.
\<close>

definition counted :: "'s optimizer \<Rightarrow> (nat \<times> 's) optimizer" where
  "counted curve_fit call = (\<lambda>(n, s). case curve_fit call s of (r, s') \<Rightarrow> (r, (n + 1, s')))"

text \<open>
  An optimizer that fails to converge on its first invocation and returns a fit on
  every later one; its state is the number of invocations so far.
\<close>

definition fails_first :: "nat optimizer" where
  "fails_first call k =
     (if k = 0 then (Inl RuntimeError, k + 1) else (Inr ((1, 1, 1), []), k + 1))"

subsection \<open>pharmacological\_modulation\_analysis.py\<close>

text \<open>
  \<^verbatim>\<open>max_response / (1 + (EC50 / x) ** hill_slope)\<close>, for positive \<open>x\<close> and
  \<open>EC50\<close>.
\<close>

definition dose_sigmoid :: "real \<Rightarrow> params \<Rightarrow> real" where
  "dose_sigmoid x = (\<lambda>(EC50, hill_slope, max_response).
     max_response / (1 + (EC50 / x) powr hill_slope))"

definition dose_response_call :: "real list \<Rightarrow> real list \<Rightarrow> curve_fit_call" where
  "dose_response_call doses responses =
     \<lparr>model = dose_sigmoid, xdata = doses, ydata = responses, p0 = None,
      bounds = Some ((0, 0, 0), (1000, 10, 100))\<rparr>"

text \<open>
  One call of the optimizer inside \<^verbatim>\<open>try\<close>; \<^verbatim>\<open>except RuntimeError as e\<close>
  raises \<^verbatim>\<open>AnalysisError\<close> from it. Log entries are not modelled.
\<close>

definition fit_dose_response :: "'s optimizer \<Rightarrow> real list \<Rightarrow> real list \<Rightarrow> 's
    \<Rightarrow> fit_result result \<times> 's" where
  "fit_dose_response curve_fit doses responses s =
     (case curve_fit (dose_response_call doses responses) s of
        (Inl e, s') \<Rightarrow>
          if isinstance e ''RuntimeError'' then (Inl (AnalysisError (Some e)), s')
          else (Inl e, s')
      | (Inr (popt, pcov), s') \<Rightarrow> (Inr (popt, pcov), s'))"

subsection \<open>synaptic\_input\_output\_analysis.py\<close>

text \<open>\<^verbatim>\<open>c / (1 + exp(-(x - a) / b))\<close>\<close>

definition io_sigmoid :: "real \<Rightarrow> params \<Rightarrow> real" where
  "io_sigmoid x = (\<lambda>(a, b, c). c / (1 + exp (- (x - a) / b)))"

definition synaptic_io_call :: "real list \<Rightarrow> real list \<Rightarrow> curve_fit_call" where
  "synaptic_io_call input_data output_data =
     \<lparr>model = io_sigmoid, xdata = input_data, ydata = output_data, p0 = Some (0, 1, 1),
      bounds = None\<rparr>"

text \<open>
  The two columns are looked up by name (a missing column raises \<^verbatim>\<open>KeyError\<close>),
  then the optimizer is called once, outside any \<^verbatim>\<open>try\<close>.
\<close>

definition analyze_synaptic_io :: "'s optimizer \<Rightarrow> dataframe \<Rightarrow> 's \<Rightarrow> fit_result result \<times> 's" where
  "analyze_synaptic_io curve_fit data s =
     (case data ''Input'' of
        None \<Rightarrow> (Inl KeyError, s)
      | Some input_data \<Rightarrow>
          (case data ''Output'' of
             None \<Rightarrow> (Inl KeyError, s)
           | Some output_data \<Rightarrow> curve_fit (synaptic_io_call input_data output_data) s))"

section \<open>Properties of the interval computation\<close>

lemma np_diff_length: "length (np_diff a) = length a - 1"
  by (simp add: np_diff_def)

lemma np_diff_nth:
  assumes "i < length a - 1"
  shows "np_diff a ! i = a ! Suc i - a ! i"
  using assms by (simp add: np_diff_def)

lemma np_diff_nonneg:
  assumes "sorted a" and "d \<in> set (np_diff a)"
  shows "0 \<le> d"
proof -
  from assms(2) obtain i where i: "i < length (np_diff a)" and d: "d = np_diff a ! i"
    by (auto simp: in_set_conv_nth)
  from i have lt: "i < length a - 1"
    by (simp add: np_diff_length)
  then have "a ! i \<le> a ! Suc i"
    using assms(1) by (intro sorted_nth_mono) auto
  with d lt show ?thesis
    by (simp add: np_diff_nth)
qed

text \<open>
  C5. For every ascending timestamp sequence of length n >= 2, the interspike-interval
  computation returns a sequence of exactly n - 1 values, each of which is non-negative.
\<close>

theorem compute_isi_ascending:
  assumes "sorted spike_times" and "2 \<le> length spike_times"
  shows "\<exists>ys. compute_isi spike_times = Inr ys
           \<and> length ys = length spike_times - 1 \<and> (\<forall>y \<in> set ys. 0 \<le> y)"
proof -
  let ?ys = "rescale_s_to_ms (isi spike_times)"
  have "length ?ys = length spike_times - 1"
    by (simp add: rescale_s_to_ms_def isi_def np_diff_length)
  moreover have "\<forall>y \<in> set ?ys. 0 \<le> y"
    using np_diff_nonneg [OF assms(1)] by (auto simp: rescale_s_to_ms_def isi_def)
  ultimately show ?thesis
    by (simp add: compute_isi_def)
qed

theorem compute_isi_ascending_witness:
  "sorted [1/10, 1/4, 1/4, 1 :: real] \<and> 2 \<le> length [1/10, 1/4, 1/4, 1 :: real]
   \<and> compute_isi [1/10, 1/4, 1/4, 1] = Inr [150, 0, 750]
   \<and> (\<exists>ys. compute_isi [1/10, 1/4, 1/4, 1] = Inr ys \<and> length ys = 3
         \<and> list_all (\<lambda>y. 0 \<le> y) ys)"
proof -
  have s: "sorted [1/10, 1/4, 1/4, 1 :: real]" by simp
  have l: "2 \<le> length [1/10, 1/4, 1/4, 1 :: real]" by simp
  have v: "compute_isi [1/10, 1/4, 1/4, 1] = Inr [150, 0, 750]"
    by (simp add: compute_isi_def rescale_s_to_ms_def isi_def np_diff_def)
  from compute_isi_ascending [OF s l] obtain ys where
    ys: "compute_isi [1/10, 1/4, 1/4, 1] = Inr ys"
      "length ys = length [1/10, 1/4, 1/4, 1 :: real] - 1" "\<forall>y \<in> set ys. 0 \<le> y"
    by blast
  from ys(2) have "length ys = 3" by simp
  moreover from ys(3) have "list_all (\<lambda>y. 0 \<le> y) ys" by (simp add: list_all_iff)
  ultimately show ?thesis using s l v ys(1) by blast
qed

text \<open>
  C6 (as stated). For every timestamp sequence with fewer than 2 elements, the
  interspike-interval computation fails by raising EmptyInputError. The code returns
  the empty sequence instead: no class of that name exists in the repository, and
  \<^verbatim>\<open>compute_isi\<close> raises nothing.
\<close>

theorem compute_isi_empty_input_counterexample:
  "compute_isi [] = Inr [] \<and> compute_isi [1/2] = Inr []
   \<and> \<not> raises (compute_isi []) ''EmptyInputError''
   \<and> \<not> raises (compute_isi [1/2]) ''EmptyInputError''"
  by (simp add: compute_isi_def rescale_s_to_ms_def isi_def np_diff_def raises_def)

text \<open>
  C6 (amended). For every timestamp sequence with fewer than 2 elements, the
  interspike-interval computation raises no error and returns the empty sequence.
\<close>

theorem compute_isi_short_input:
  assumes "length spike_times < 2"
  shows "compute_isi spike_times = Inr []"
proof -
  have "length (np_diff spike_times) = 0"
    using assms by (simp add: np_diff_length)
  then show ?thesis
    by (simp add: compute_isi_def rescale_s_to_ms_def isi_def)
qed

theorem compute_isi_short_input_witness:
  "length [3/2 :: real] < 2 \<and> compute_isi [3/2] = Inr []"
  using compute_isi_short_input [of "[3/2]"] by simp

section \<open>Properties of the bandpass filter\<close>





lemma butter_rejects:
  assumes fs: "0 < fs" and bad: "\<not> (0 < freq_min \<and> freq_min < freq_max \<and> freq_max < fs / 2)"
  shows "butter design N (freq_min, freq_max) fs = Inl ValueError"
proof -
  from fs have a: "2 * freq_min / fs \<le> 0 \<longleftrightarrow> freq_min \<le> 0"
    and a': "2 * freq_max / fs \<le> 0 \<longleftrightarrow> freq_max \<le> 0"
    and b: "2 * freq_min / fs < 2 * freq_max / fs \<longleftrightarrow> freq_min < freq_max"
    and c: "1 \<le> 2 * freq_max / fs \<longleftrightarrow> fs / 2 \<le> freq_max"
    by (simp_all add: field_simps)
  from bad have "freq_min \<le> 0 \<or> \<not> freq_min < freq_max \<or> fs / 2 \<le> freq_max"
    by auto
  with fs show ?thesis
    by (auto simp: butter_def Let_def a a' b c)
qed



text \<open>
  C2 (as stated). For every cutoff pair violating 0 < freq_min < freq_max <
  sampling_rate/2 the bandpass filtering operation raises InvalidParameterError. The
  repository has no class of that name and no check of the cutoffs; the exception that
  reaches the caller is the \<^verbatim>\<open>ValueError\<close> of the filter design.
\<close>

theorem bandpass_invalid_cutoffs_counterexample:
  "bandpass_filter (\<lambda>N w0 w1. [(w0, 0, - w0, - 1, w1)]) [3, 1, 2] 1000 100 1 = Inl ValueError
   \<and> \<not> raises (bandpass_filter (\<lambda>N w0 w1. [(w0, 0, - w0, - 1, w1)]) [3, 1, 2] 1000 100 1)
        ''InvalidParameterError''
   \<and> \<not> raises (pm_preprocess_signal (\<lambda>N w0 w1. [(w0, 0, - w0, - 1, w1)]) [3, 1, 2] 1000 True 100 1)
        ''InvalidParameterError''"
  by (simp add: bandpass_filter_def pm_preprocess_signal_def butter_def raises_def
      isinstance_def ValueError_def Let_def)

text \<open>
  C2 (amended). For every non-empty signal, positive sampling rate and cutoff pair
  violating 0 < freq_min < freq_max < sampling_rate/2, the bandpass filtering operation
  returns no result and fails with the \<^verbatim>\<open>ValueError\<close> raised by the filter
  design, which is propagated unchanged.
\<close>

theorem bandpass_invalid_cutoffs:
  assumes "0 < sampling_rate"
    and "\<not> (0 < freq_min \<and> freq_min < freq_max \<and> freq_max < sampling_rate / 2)"
    and "signal \<noteq> []"
  shows "bandpass_filter design signal sampling_rate freq_min freq_max = Inl ValueError
       \<and> pm_preprocess_signal design signal sampling_rate detrend_signal freq_min freq_max
           = Inl ValueError"
  using butter_rejects [OF assms(1,2), of design 4]
  by (simp add: bandpass_filter_def pm_preprocess_signal_def)

theorem bandpass_invalid_cutoffs_witness:
  "(0::real) < 1000 \<and> \<not> ((0::real) < 100 \<and> (100::real) < 100 \<and> (100::real) < 1000 / 2)
   \<and> [3, 1, 2 :: real] \<noteq> []
   \<and> bandpass_filter (\<lambda>N w0 w1. [(w0, 0, - w0, - 1, w1)]) [3, 1, 2] 1000 100 100 = Inl ValueError
   \<and> pm_preprocess_signal (\<lambda>N w0 w1. [(w0, 0, - w0, - 1, w1)]) [3, 1, 2] 1000 False 100 100
       = Inl ValueError"
proof -
  have h: "(0::real) < 1000"
    "\<not> ((0::real) < 100 \<and> (100::real) < 100 \<and> (100::real) < 1000 / 2)"
    "[3, 1, 2 :: real] \<noteq> []"
    by simp_all
  from bandpass_invalid_cutoffs [OF h, of "\<lambda>N w0 w1. [(w0, 0, - w0, - 1, w1)]" False] h
  show ?thesis by simp
qed

section \<open>Properties of the peak scan\<close>

lemma look_ahead_ge: "i_ahead \<le> look_ahead x i i_ahead"
  by (induction x i i_ahead rule: look_ahead.induct) (subst look_ahead.simps, auto dest: Suc_leD)

lemma look_ahead_le: "i_ahead \<le> length x - 1 \<Longrightarrow> look_ahead x i i_ahead \<le> length x - 1"
  by (induction x i i_ahead rule: look_ahead.induct) (subst look_ahead.simps, auto dest: Suc_leD)

lemma look_ahead_equal:
  "i_ahead \<le> k \<Longrightarrow> k < look_ahead x i i_ahead \<Longrightarrow> x ! k = x ! i"
proof (induction x i i_ahead rule: look_ahead.induct)
  case (1 x i i_ahead)
  show ?case
  proof (cases "i_ahead < length x - 1 \<and> x ! i_ahead = x ! i")
    case True
    then have eq: "look_ahead x i i_ahead = look_ahead x i (i_ahead + 1)"
      by (subst look_ahead.simps) simp
    show ?thesis
    proof (cases "k = i_ahead")
      case True
      with \<open>i_ahead < length x - 1 \<and> x ! i_ahead = x ! i\<close> show ?thesis by simp
    next
      case False
      with "1.prems" eq True "1.IH" show ?thesis by simp
    qed
  next
    case False
    then have "look_ahead x i i_ahead = i_ahead"
      by (subst look_ahead.simps) auto
    with "1.prems" show ?thesis by simp
  qed
qed

lemma look_ahead_stop:
  "look_ahead x i i_ahead < length x - 1 \<Longrightarrow> x ! look_ahead x i i_ahead \<noteq> x ! i"
proof (induction x i i_ahead rule: look_ahead.induct)
  case (1 x i i_ahead)
  show ?case
  proof (cases "i_ahead < length x - 1 \<and> x ! i_ahead = x ! i")
    case True
    then have eq: "look_ahead x i i_ahead = look_ahead x i (i_ahead + 1)"
      by (subst look_ahead.simps) simp
    with "1.prems" "1.IH" True show ?thesis by simp
  next
    case False
    then have "look_ahead x i i_ahead = i_ahead"
      by (subst look_ahead.simps) auto
    with "1.prems" False show ?thesis by simp
  qed
qed

lemma flat_peakD:
  assumes "flat_peak x l r"
  shows "0 < l" and "l \<le> r" and "r + 1 < length x"
    and "x ! (l - 1) < x ! l" and "x ! (r + 1) < x ! l"
    and "\<And>k. l \<le> k \<Longrightarrow> k \<le> r \<Longrightarrow> x ! k = x ! l"
proof -
  from assms have c: "0 < l \<and> l \<le> r \<and> r + 1 < length x \<and> x ! (l - 1) < x ! l
      \<and> (\<forall>k \<in> {l..r}. x ! k = x ! l) \<and> x ! (r + 1) < x ! l"
    unfolding flat_peak_def .
  from c show "0 < l" and "l \<le> r" and "r + 1 < length x"
    and "x ! (l - 1) < x ! l" and "x ! (r + 1) < x ! l"
    by blast+
  fix k assume "l \<le> k" "k \<le> r"
  then have "k \<in> {l..r}" by simp
  with c show "x ! k = x ! l" by blast
qed

lemma flat_peakI:
  assumes "0 < l" and "l \<le> r" and "r + 1 < length x"
    and "x ! (l - 1) < x ! l" and "x ! (r + 1) < x ! l"
    and "\<And>k. l \<le> k \<Longrightarrow> k \<le> r \<Longrightarrow> x ! k = x ! l"
  shows "flat_peak x l r"
  unfolding flat_peak_def
proof (intro conjI ballI)
  fix k assume "k \<in> {l..r}"
  then have "l \<le> k" "k \<le> r" by simp_all
  then show "x ! k = x ! l" by (rule assms(6))
qed (fact assms)+

lemma flat_peak_right_unique:
  assumes "flat_peak x l r" and "flat_peak x l r'"
  shows "r = r'"
proof (rule ccontr)
  assume ne: "r \<noteq> r'"
  have aux: False if a: "flat_peak x l p" and b: "flat_peak x l q" and lt: "p < q" for p q
  proof -
    from a have "l \<le> p" and low: "x ! (p + 1) < x ! l"
      by (rule flat_peakD)+
    with lt have "l \<le> p + 1" "p + 1 \<le> q" by simp_all
    then have "x ! (p + 1) = x ! l"
      by (rule flat_peakD(6) [OF b])
    with low show False by simp
  qed
  from ne have "r < r' \<or> r' < r" by arith
  with aux assms show False by blast
qed

lemma peaks_from_beyond:
  assumes "\<not> i < length x - 1"
  shows "peaks_from x i = {}"
proof -
  have False if "flat_peak x l r" "i \<le> l" for l r
    using flat_peakD(2,3) [OF that(1)] that(2) assms by simp
  then show ?thesis
    by (auto simp: peaks_from_def)
qed

lemma peaks_from_skip:
  assumes "\<And>r. \<not> flat_peak x i r"
  shows "peaks_from x i = peaks_from x (i + 1)"
proof -
  have "i \<le> l \<longleftrightarrow> i + 1 \<le> l" if "flat_peak x l r" for l r
    using that assms [of r] by (cases "l = i") auto
  then show ?thesis
    unfolding peaks_from_def by blast
qed

lemma no_peak_not_rising:
  assumes "\<not> x ! (i - 1) < x ! i"
  shows "\<not> flat_peak x i r"
  using assms by (auto dest: flat_peakD(4))

lemma no_peak_not_falling:
  assumes i: "i < length x - 1"
    and a: "a = look_ahead x i (i + 1)"
    and nf: "\<not> x ! a < x ! i"
  shows "\<not> flat_peak x i r"
proof
  assume fp: "flat_peak x i r"
  note r = flat_peakD(2,3) [OF fp] and low = flat_peakD(5) [OF fp]
    and flat = flat_peakD(6) [OF fp]
  have ge: "i + 1 \<le> a"
    using look_ahead_ge [of "i + 1" x i] a by simp
  consider "a < r + 1" | "r + 1 < a" | "a = r + 1" by arith
  then show False
  proof cases
    case 1
    with ge have "x ! a = x ! i" by (intro flat) auto
    moreover from 1 r have "a < length x - 1" by simp
    then have "x ! a \<noteq> x ! i"
      using look_ahead_stop [of x i "i + 1"] a by simp
    ultimately show False by simp
  next
    case 2
    with r have "x ! (r + 1) = x ! i"
      using look_ahead_equal [of "i + 1" "r + 1" x i] a by simp
    with low show False by simp
  next
    case 3
    with low nf show False by simp
  qed
qed

lemma peak_at_look_ahead:
  assumes i: "0 < i" "i < length x - 1"
    and rise: "x ! (i - 1) < x ! i"
    and a: "a = look_ahead x i (i + 1)"
    and fall: "x ! a < x ! i"
  shows "flat_peak x i (a - 1)"
proof -
  have ge: "i + 1 \<le> a"
    using look_ahead_ge [of "i + 1" x i] a by simp
  have le: "a \<le> length x - 1"
    using look_ahead_le [of "i + 1" x i] i a by simp
  have flat: "x ! k = x ! i" if "i \<le> k" "k \<le> a - 1" for k
  proof (cases "k = i")
    case False
    with that ge have "i + 1 \<le> k" "k < a" by auto
    then show ?thesis
      using look_ahead_equal [of "i + 1" k x i] a by simp
  qed simp
  from ge le i have "i \<le> a - 1" "a - 1 + 1 < length x" "a - 1 + 1 = a" by simp_all
  with i(1) rise fall show ?thesis
    by (intro flat_peakI flat) simp_all
qed

lemma peaks_from_emit:
  assumes i: "0 < i" "i < length x - 1"
    and rise: "x ! (i - 1) < x ! i"
    and a: "a = look_ahead x i (i + 1)"
    and fall: "x ! a < x ! i"
  shows "peaks_from x i = insert ((i + (a - 1)) div 2, i, a - 1) (peaks_from x (a + 1))"
proof -
  have ge: "i + 1 \<le> a"
    using look_ahead_ge [of "i + 1" x i] a by simp
  have fp: "flat_peak x i (a - 1)"
    using peak_at_look_ahead [OF i rise a fall] .
  have flat: "x ! k = x ! i" if "i \<le> k" "k < a" for k
    using that ge by (intro flat_peakD(6) [OF fp]) auto
  have later: "a + 1 \<le> l" if p: "flat_peak x l r" and l: "i < l" for l r
  proof (rule ccontr)
    assume "\<not> a + 1 \<le> l"
    then have la: "l \<le> a" by simp
    note up = flat_peakD(4) [OF p]
    show False
    proof (cases "l = a")
      case True
      with l ge have "x ! (l - 1) = x ! i" by (intro flat) auto
      with up True fall show False by simp
    next
      case False
      with la l have "x ! (l - 1) = x ! i" "x ! l = x ! i" by (auto intro!: flat)
      with up show False by simp
    qed
  qed
  show ?thesis
  proof (intro set_eqI iffI)
    fix t assume "t \<in> peaks_from x i"
    then obtain l r where t: "t = ((l + r) div 2, l, r)" and p: "flat_peak x l r" and l: "i \<le> l"
      by (auto simp: peaks_from_def)
    show "t \<in> insert ((i + (a - 1)) div 2, i, a - 1) (peaks_from x (a + 1))"
    proof (cases "l = i")
      case True
      with p fp have "r = a - 1" by (auto dest: flat_peak_right_unique)
      with True t show ?thesis by simp
    next
      case False
      with l have "i < l" by simp
      from later [OF p this] p t show ?thesis
        by (auto simp: peaks_from_def)
    qed
  next
    fix t assume "t \<in> insert ((i + (a - 1)) div 2, i, a - 1) (peaks_from x (a + 1))"
    with fp ge show "t \<in> peaks_from x i"
      by (auto simp: peaks_from_def)
  qed
qed

lemma local_maxima_from_set:
  "0 < i \<Longrightarrow> set (local_maxima_from x i) = peaks_from x i"
proof (induction x i rule: local_maxima_from.induct)
  case (1 x i)
  show ?case
  proof (cases "i < length x - 1")
    case False
    then show ?thesis
      by (subst local_maxima_from.simps) (simp add: peaks_from_beyond)
  next
    case in_range: True
    show ?thesis
    proof (cases "x ! (i - 1) < x ! i")
      case False
      with in_range have "local_maxima_from x i = local_maxima_from x (i + 1)"
        by (subst local_maxima_from.simps) simp
      moreover have "peaks_from x i = peaks_from x (i + 1)"
        using False by (intro peaks_from_skip no_peak_not_rising)
      ultimately show ?thesis
        using "1.IH"(3) [OF in_range False] by simp
    next
      case rise: True
      define a where "a = look_ahead x i (i + 1)"
      show ?thesis
      proof (cases "x ! a < x ! i")
        case True
        with in_range rise have "local_maxima_from x i =
            ((i + (a - 1)) div 2, i, a - 1) # local_maxima_from x (a + 1)"
          by (subst local_maxima_from.simps) (simp add: a_def Let_def)
        moreover have "peaks_from x i =
            insert ((i + (a - 1)) div 2, i, a - 1) (peaks_from x (a + 1))"
          using peaks_from_emit [OF "1.prems" in_range rise a_def True] .
        ultimately show ?thesis
          using "1.IH"(1) [OF in_range rise a_def True] by simp
      next
        case False
        with in_range rise have "local_maxima_from x i = local_maxima_from x (i + 1)"
          by (subst local_maxima_from.simps) (simp add: a_def Let_def)
        moreover have "peaks_from x i = peaks_from x (i + 1)"
          using no_peak_not_falling [OF in_range a_def False] by (intro peaks_from_skip)
        ultimately show ?thesis
          using "1.IH"(2) [OF in_range rise a_def False] by simp
      qed
    qed
  qed
qed

lemma is_peak_iff:
  "is_peak x m \<longleftrightarrow> (\<exists>l r. flat_peak x l r \<and> m = (l + r) div 2)"
proof
  assume "is_peak x m"
  then show "\<exists>l r. flat_peak x l r \<and> m = (l + r) div 2"
    unfolding is_peak_def by blast
next
  assume "\<exists>l r. flat_peak x l r \<and> m = (l + r) div 2"
  then obtain l r where p: "flat_peak x l r" and m: "m = (l + r) div 2"
    by blast
  from flat_peakD(1,2,3) [OF p] m have "l \<in> {1..m}" "r \<in> {m..<length x - 1}"
    by auto
  with p m show "is_peak x m"
    unfolding is_peak_def by blast
qed

lemma peaks_from_bounds:
  assumes "(m, l, r) \<in> peaks_from x i"
  shows "i \<le> m" and "m \<le> r" and "m < length x" and "flat_peak x l r" and "m = (l + r) div 2"
proof -
  from assms have p: "flat_peak x l r" and m: "m = (l + r) div 2" and l: "i \<le> l"
    by (auto simp: peaks_from_def)
  show "flat_peak x l r" and "m = (l + r) div 2" by fact+
  from flat_peakD(2,3) [OF p] m l show "i \<le> m" and "m \<le> r" and "m < length x"
    by auto
qed

lemma local_maxima_from_sorted:
  "0 < i \<Longrightarrow> sorted_wrt (<) (map fst (local_maxima_from x i))"
proof (induction x i rule: local_maxima_from.induct)
  case (1 x i)
  show ?case
  proof (cases "i < length x - 1")
    case False
    then show ?thesis
      by (subst local_maxima_from.simps) simp
  next
    case in_range: True
    show ?thesis
    proof (cases "x ! (i - 1) < x ! i")
      case False
      with in_range have "local_maxima_from x i = local_maxima_from x (i + 1)"
        by (subst local_maxima_from.simps) simp
      then show ?thesis
        using "1.IH"(3) [OF in_range False] by simp
    next
      case rise: True
      define a where "a = look_ahead x i (i + 1)"
      have ge: "i + 1 \<le> a"
        using look_ahead_ge [of "i + 1" x i] by (simp add: a_def)
      show ?thesis
      proof (cases "x ! a < x ! i")
        case True
        with in_range rise have unfold: "local_maxima_from x i =
            ((i + (a - 1)) div 2, i, a - 1) # local_maxima_from x (a + 1)"
          by (subst local_maxima_from.simps) (simp add: a_def Let_def)
        have "(i + (a - 1)) div 2 < m" if "m \<in> fst ` set (local_maxima_from x (a + 1))" for m
        proof -
          from that obtain l r where "(m, l, r) \<in> set (local_maxima_from x (a + 1))"
            by auto
          then have "(m, l, r) \<in> peaks_from x (a + 1)"
            by (simp add: local_maxima_from_set)
          then have "a + 1 \<le> m" by (rule peaks_from_bounds)
          with ge show ?thesis by simp
        qed
        then show ?thesis
          using "1.IH"(1) [OF in_range rise a_def True] unfold by auto
      next
        case False
        with in_range rise have "local_maxima_from x i = local_maxima_from x (i + 1)"
          by (subst local_maxima_from.simps) (simp add: a_def Let_def)
        then show ?thesis
          using "1.IH"(2) [OF in_range rise a_def False] by simp
      qed
    qed
  qed
qed

lemma local_maxima_1d_peaks: "map fst (local_maxima_1d x) = peak_indices x"
proof -
  let ?ms = "map fst (local_maxima_1d x)"
  have strict: "sorted_wrt (<) ?ms"
    by (simp add: local_maxima_1d_def local_maxima_from_sorted)
  have "set ?ms = fst ` peaks_from x 1"
    by (simp add: local_maxima_1d_def local_maxima_from_set)
  also have "\<dots> = {m. m < length x \<and> is_peak x m}"
  proof (intro set_eqI iffI)
    fix m assume "m \<in> fst ` peaks_from x 1"
    then obtain l r where "(m, l, r) \<in> peaks_from x 1" by auto
    from peaks_from_bounds(3,4,5) [OF this] show "m \<in> {m. m < length x \<and> is_peak x m}"
      by (auto simp: is_peak_iff)
  next
    fix m assume "m \<in> {m. m < length x \<and> is_peak x m}"
    then obtain l r where p: "flat_peak x l r" and m: "m = (l + r) div 2"
      by (auto simp: is_peak_iff)
    from flat_peakD(1) [OF p] p m have "(m, l, r) \<in> peaks_from x 1"
      by (auto simp: peaks_from_def)
    then show "m \<in> fst ` peaks_from x 1" by force
  qed
  also have "\<dots> = set (peak_indices x)"
    by (auto simp: peak_indices_def)
  finally have "set ?ms = set (peak_indices x)" .
  moreover from strict have "sorted ?ms" "distinct ?ms"
    by (simp_all add: strict_sorted_iff)
  moreover have "sorted (peak_indices x)" "distinct (peak_indices x)"
    by (simp_all add: peak_indices_def sorted_wrt_filter)
  ultimately show ?thesis
    by (intro sorted_distinct_set_unique)
qed

lemma find_peaks_eq:
  "find_peaks x h = filter (\<lambda>i. is_peak x i \<and> h \<le> x ! i) [0..<length x]"
  by (simp add: find_peaks_def local_maxima_1d_peaks peak_indices_def conj_commute)

lemma flat_peak_left_unique:
  assumes p: "flat_peak x l r" and q: "flat_peak x l' r'"
    and i: "l \<le> i" "i \<le> r" "l' \<le> i" "i \<le> r'"
  shows "l = l'"
proof (rule ccontr)
  assume ne: "l \<noteq> l'"
  have aux: False
    if a: "flat_peak x u v" and b: "flat_peak x u' v'" and lt: "u < u'"
      and j: "u \<le> j" "j \<le> v" "u' \<le> j" "j \<le> v'" for u v u' v' j
  proof -
    from lt j have "u \<le> u' - 1" "u' - 1 \<le> v" by simp_all
    then have "x ! (u' - 1) = x ! u" by (rule flat_peakD(6) [OF a])
    moreover from lt j have "u \<le> u'" "u' \<le> v" by simp_all
    then have "x ! u' = x ! u" by (rule flat_peakD(6) [OF a])
    ultimately show False using flat_peakD(4) [OF b] by simp
  qed
  from ne have "l < l' \<or> l' < l" by arith
  then show False
    using aux [OF p q _ i] aux [OF q p _ i(3,4,1,2)] by blast
qed

lemma is_peak_on_plateau:
  assumes p: "flat_peak x l r" and i: "l \<le> i" "i \<le> r"
  shows "is_peak x i \<longleftrightarrow> i = (l + r) div 2"
proof
  assume "is_peak x i"
  then obtain l' r' where q: "flat_peak x l' r'" and m: "i = (l' + r') div 2"
    by (auto simp: is_peak_iff)
  from flat_peakD(2) [OF q] m have "l' \<le> i" "i \<le> r'" by auto
  from flat_peak_left_unique [OF p q i this] have "l = l'" .
  with p q have "r = r'" by (auto dest: flat_peak_right_unique)
  with \<open>l = l'\<close> m show "i = (l + r) div 2" by simp
next
  assume "i = (l + r) div 2"
  with p show "is_peak x i" by (auto simp: is_peak_iff)
qed

lemma filter_upt_single:
  assumes "m < n"
  shows "filter (\<lambda>i. i = m) [0..<n] = [m]"
proof -
  have "sorted (filter (\<lambda>i. i = m) [0..<n])" "distinct (filter (\<lambda>i. i = m) [0..<n])"
    by (simp_all add: sorted_wrt_filter)
  moreover have "set (filter (\<lambda>i. i = m) [0..<n]) = set [m]"
    using assms by auto
  ultimately show ?thesis
    by (intro sorted_distinct_set_unique) simp_all
qed

section \<open>Properties of spike detection\<close>

text \<open>
  C3 (as stated). Spike detection returns exactly the timestamps of the peak indices of
  the sign-inverted signal whose height exceeds the magnitude of the threshold, each
  index divided by the sampling rate. The selection by height is inclusive
  (\<^verbatim>\<open>height <= x[peak]\<close>), so a peak whose height equals the magnitude of the
  threshold is reported although it does not exceed it: the signal \<open>[0, -30, 0]\<close> with
  threshold \<open>-30\<close>.
\<close>

theorem detect_action_potentials_equal_height_counterexample:
  "detect_action_potentials [0, -30, 0] 1 (-30) = [1]
   \<and> spike_times_exceeding [0, -30, 0] 1 (-30) = []"
proof -
  have "detect_action_potentials [0, -30, 0] 1 (-30) = [1]"
    by (simp add: detect_action_potentials_def find_peaks_def local_maxima_1d_def
        local_maxima_from.simps look_ahead.simps)
  moreover have "spike_times_exceeding [0, -30, 0] 1 (-30) = []"
    by (simp add: spike_times_exceeding_def peak_indices_def is_peak_def flat_peak_def)
  ultimately show ?thesis by simp
qed

text \<open>
  C3 (amended). For every signal, positive sampling rate and threshold, spike detection
  returns exactly the timestamps of the peak indices of the sign-inverted signal whose
  height is at least the magnitude of the threshold, in ascending order of index, each
  index divided by the sampling rate.
\<close>

theorem detect_action_potentials_peaks:
  assumes "0 < sampling_rate"
  shows "detect_action_potentials signal sampling_rate threshold =
    map (\<lambda>i. real i / sampling_rate)
      (filter (\<lambda>i. \<bar>threshold\<bar> \<le> map uminus signal ! i) (peak_indices (map uminus signal)))"
proof -
  let ?x = "map uminus signal"
  have scan: "map fst (local_maxima_1d ?x) = peak_indices ?x"
    by (rule local_maxima_1d_peaks)
  have "find_peaks ?x \<bar>threshold\<bar> = filter (\<lambda>i. \<bar>threshold\<bar> \<le> ?x ! i) (peak_indices ?x)"
    unfolding find_peaks_def Let_def scan ..
  then show ?thesis
    unfolding detect_action_potentials_def Let_def by (rule arg_cong)
qed

theorem detect_action_potentials_peaks_witness:
  "(0::real) < 2
   \<and> detect_action_potentials [0, -40, 0, -35, -35, 0, -10, 0] 2 (-30) = [1 / 2, 3 / 2]
   \<and> map (\<lambda>i. real i / 2)
        (filter (\<lambda>i. \<bar>- 30 :: real\<bar> \<le> map uminus [0, -40, 0, -35, -35, 0, -10, 0] ! i)
          (peak_indices (map uminus [0, -40, 0, -35, -35, 0, -10, 0]))) = [1 / 2, 3 / 2]"
proof -
  have pos: "(0::real) < 2" by simp
  have run: "detect_action_potentials [0, -40, 0, -35, -35, 0, -10, 0] 2 (-30) = [1 / 2, 3 / 2]"
    by (simp add: detect_action_potentials_def find_peaks_def local_maxima_1d_def
        local_maxima_from.simps look_ahead.simps)
  from detect_action_potentials_peaks [OF pos, of "[0, -40, 0, -35, -35, 0, -10, 0]" "- 30"] run
  show ?thesis by simp
qed

text \<open>
  C4 (as stated). Where two or more adjacent samples form a flat extremum that reaches
  the threshold, spike detection reports the first of them. For a plateau of three
  samples the code reports the second: in \<open>[0, -40, -40, -40, 0]\<close> the plateau of the
  inverted signal spans the indices 1 to 3 and the reported index is 2.
\<close>

theorem plateau_first_sample_counterexample:
  "flat_peak (map uminus [0, -40, -40, -40, 0]) 1 3
   \<and> \<bar>- 30 :: real\<bar> \<le> - [0, -40, -40, -40, 0] ! 1
   \<and> detect_action_potentials [0, -40, -40, -40, 0] 1 (-30) = [2]"
proof -
  have "flat_peak (map uminus [0, -40, -40, -40, 0]) 1 3"
    by (simp add: flat_peak_def atLeastAtMost_upt upt_rec)
  moreover have "detect_action_potentials [0, -40, -40, -40, 0] 1 (-30) = [2]"
    by (simp add: detect_action_potentials_def find_peaks_def local_maxima_1d_def
        local_maxima_from.simps look_ahead.simps)
  ultimately show ?thesis by simp
qed

text \<open>
  C4 (amended). For every signal with a flat extremum, that is a run of equal samples at
  the indices \<open>l\<close> to \<open>r\<close> of the sign-inverted signal with strictly lower neighbours
  on both sides, whose height is at least the magnitude of the threshold, spike
  detection reports exactly one timestamp within the plateau: that of the middle sample
  \<open>(l + r) div 2\<close>, rounded down. For a plateau of exactly two samples this is the
  first of them.
\<close>

theorem plateau_reported_at_middle:
  assumes fs: "0 < sampling_rate"
    and p: "flat_peak (map uminus signal) l r"
    and h: "\<bar>threshold\<bar> \<le> - signal ! l"
  shows "filter (\<lambda>t. real l / sampling_rate \<le> t \<and> t \<le> real r / sampling_rate)
           (detect_action_potentials signal sampling_rate threshold)
         = [real ((l + r) div 2) / sampling_rate]
       \<and> (r = l + 1 \<longrightarrow> (l + r) div 2 = l)"
proof -
  let ?x = "map uminus signal"
  let ?m = "(l + r) div 2"
  have len: "r + 1 < length signal"
    using flat_peakD(3) [OF p] by simp
  have lr: "l \<le> r" by (rule flat_peakD(2) [OF p])
  have inside: "real l / sampling_rate \<le> real i / sampling_rate
      \<and> real i / sampling_rate \<le> real r / sampling_rate \<longleftrightarrow> l \<le> i \<and> i \<le> r" for i
    using fs by (simp add: divide_le_cancel)
  have height: "?x ! i = - signal ! l" if "l \<le> i" "i \<le> r" for i
  proof -
    from that len have "l < length signal" by simp
    then have "?x ! l = - signal ! l" by simp
    with flat_peakD(6) [OF p that] show ?thesis by simp
  qed
  have sel: "is_peak ?x i \<and> \<bar>threshold\<bar> \<le> ?x ! i \<and> l \<le> i \<and> i \<le> r \<longleftrightarrow> i = ?m" for i
  proof
    assume a: "is_peak ?x i \<and> \<bar>threshold\<bar> \<le> ?x ! i \<and> l \<le> i \<and> i \<le> r"
    then show "i = ?m"
      using is_peak_on_plateau [OF p, of i] by simp
  next
    assume i: "i = ?m"
    with lr have b: "l \<le> i" "i \<le> r" by auto
    with i have "is_peak ?x i"
      using is_peak_on_plateau [OF p, of i] by simp
    moreover from height [OF b] h have "\<bar>threshold\<bar> \<le> ?x ! i" by simp
    ultimately show "is_peak ?x i \<and> \<bar>threshold\<bar> \<le> ?x ! i \<and> l \<le> i \<and> i \<le> r"
      using b by simp
  qed
  have "filter (\<lambda>t. real l / sampling_rate \<le> t \<and> t \<le> real r / sampling_rate)
          (detect_action_potentials signal sampling_rate threshold)
        = map (\<lambda>i. real i / sampling_rate)
            (filter (\<lambda>i. is_peak ?x i \<and> \<bar>threshold\<bar> \<le> ?x ! i \<and> l \<le> i \<and> i \<le> r)
               [0..<length ?x])"
    by (simp add: detect_action_potentials_def find_peaks_eq filter_map o_def inside)
  also have "\<dots> = map (\<lambda>i. real i / sampling_rate) (filter (\<lambda>i. i = ?m) [0..<length ?x])"
    by (simp only: sel)
  also have "\<dots> = [real ?m / sampling_rate]"
    using len lr by (subst filter_upt_single) auto
  finally have "filter (\<lambda>t. real l / sampling_rate \<le> t \<and> t \<le> real r / sampling_rate)
          (detect_action_potentials signal sampling_rate threshold)
        = [real ?m / sampling_rate]" .
  moreover have "r = l + 1 \<longrightarrow> ?m = l" by auto
  ultimately show ?thesis by (rule conjI)
qed

theorem plateau_reported_at_middle_witness:
  "(0::real) < 2
   \<and> flat_peak (map uminus [0, -40, -40, 0]) 1 2
   \<and> \<bar>- 30 :: real\<bar> \<le> - [0, -40, -40, 0] ! 1
   \<and> filter (\<lambda>t. real 1 / 2 \<le> t \<and> t \<le> real 2 / 2)
        (detect_action_potentials [0, -40, -40, 0] 2 (-30)) = [real 1 / 2]
   \<and> (2::nat) = 1 + 1 \<and> (1 + 2) div 2 = (1::nat)"
proof -
  have pos: "(0::real) < 2" by simp
  have p: "flat_peak (map uminus [0, -40, -40, 0]) 1 2"
    by (simp add: flat_peak_def atLeastAtMost_upt upt_rec)
  have h: "\<bar>- 30 :: real\<bar> \<le> - [0, -40, -40, 0] ! 1" by simp
  from plateau_reported_at_middle [OF pos p h] have
    "filter (\<lambda>t. real 1 / 2 \<le> t \<and> t \<le> real 2 / 2)
       (detect_action_potentials [0, -40, -40, 0] 2 (-30)) = [real ((1 + 2) div 2) / 2]"
    by (rule conjunct1)
  with pos p h show ?thesis by simp
qed

text \<open>
  C9. For every signal and every positive sampling rate, the timestamps produced by
  spike detection are strictly increasing.
\<close>

theorem detect_action_potentials_increasing:
  assumes "0 < sampling_rate"
  shows "sorted_wrt (<) (detect_action_potentials signal sampling_rate threshold)"
proof -
  let ?x = "map uminus signal"
  have "sorted_wrt (<) (map fst (local_maxima_1d ?x))"
    by (simp add: local_maxima_1d_def local_maxima_from_sorted)
  then have "sorted_wrt (<) (find_peaks ?x \<bar>threshold\<bar>)"
    by (simp add: find_peaks_def sorted_wrt_filter)
  moreover have "real i / sampling_rate < real j / sampling_rate" if "i < j" for i j
    using that assms by (simp add: divide_strict_right_mono)
  ultimately show ?thesis
    unfolding detect_action_potentials_def Let_def sorted_wrt_map
    by (rule sorted_wrt_mono_rel [rotated]) simp
qed

theorem detect_action_potentials_increasing_witness:
  "(0::real) < 2
   \<and> detect_action_potentials [0, -40, 0, -35, -35, 0, -10, 0, -50, 0] 2 (-30) = [1 / 2, 3 / 2, 4]
   \<and> sorted_wrt (<) (detect_action_potentials [0, -40, 0, -35, -35, 0, -10, 0, -50, 0] 2 (-30))"
proof -
  have pos: "(0::real) < 2" by simp
  have "detect_action_potentials [0, -40, 0, -35, -35, 0, -10, 0, -50, 0] 2 (-30)
      = [1 / 2, 3 / 2, 4]"
    by (simp add: detect_action_potentials_def find_peaks_def local_maxima_1d_def
        local_maxima_from.simps look_ahead.simps)
  with detect_action_potentials_increasing [OF pos, of "[0, -40, 0, -35, -35, 0, -10, 0, -50, 0]" "- 30"]
  show ?thesis by simp
qed

text \<open>
  C10. For every signal, sampling rate and threshold \<open>t\<close>, spike detection returns the
  same result for the thresholds \<open>t\<close> and \<open>-t\<close>.
\<close>

theorem detect_action_potentials_threshold_sign:
  "detect_action_potentials signal sampling_rate threshold =
   detect_action_potentials signal sampling_rate (- threshold)"
  by (simp add: detect_action_potentials_def)

theorem detect_action_potentials_threshold_sign_witness:
  "detect_action_potentials [0, -40, 0, -35, -35, 0, -10, 0] 2 30 = [1 / 2, 3 / 2]
   \<and> detect_action_potentials [0, -40, 0, -35, -35, 0, -10, 0] 2 30
     = detect_action_potentials [0, -40, 0, -35, -35, 0, -10, 0] 2 (- 30)"
proof -
  have "detect_action_potentials [0, -40, 0, -35, -35, 0, -10, 0] 2 30 = [1 / 2, 3 / 2]"
    by (simp add: detect_action_potentials_def find_peaks_def local_maxima_1d_def
        local_maxima_from.simps look_ahead.simps)
  with detect_action_potentials_threshold_sign [of "[0, -40, 0, -35, -35, 0, -10, 0]" 2 30]
  show ?thesis by simp
qed

section \<open>Properties of curve fitting\<close>

lemma counted_once: "fst (snd (counted curve_fit call (n, s))) = n + 1"
  by (simp add: counted_def split: prod.split)

lemma fit_dose_response_calls_once:
  "fst (snd (fit_dose_response (counted curve_fit) doses responses (n, s))) = n + 1"
proof -
  obtain r s' where c: "curve_fit (dose_response_call doses responses) s = (r, s')"
    by (cases "curve_fit (dose_response_call doses responses) s")
  then have "counted curve_fit (dose_response_call doses responses) (n, s) = (r, (n + 1, s'))"
    by (simp add: counted_def)
  then show ?thesis
    by (cases r) (simp_all add: fit_dose_response_def split: prod.split)
qed

lemma analyze_synaptic_io_calls_at_most_once:
  "fst (snd (analyze_synaptic_io (counted curve_fit) data (n, s))) \<le> n + 1"
  by (simp add: analyze_synaptic_io_def counted_once split: option.split)

text \<open>
  C7 (as stated). Where the optimizer fails to converge, the curve-fitting operation
  raises CurveFitError. With an optimizer that never converges,
  \<^verbatim>\<open>fit_dose_response\<close> raises \<^verbatim>\<open>AnalysisError\<close> and
  \<^verbatim>\<open>analyze_synaptic_io\<close> lets the \<^verbatim>\<open>RuntimeError\<close> through; the
  repository has no class named CurveFitError.
\<close>

theorem curve_fit_error_counterexample:
  "fit_dose_response (\<lambda>call s. (Inl RuntimeError, s)) [1, 10, 100, 1000] [5, 50, 5, 50] ()
     = (Inl (AnalysisError (Some RuntimeError)), ())
   \<and> \<not> raises (fst (fit_dose_response (\<lambda>call s. (Inl RuntimeError, s)) [1, 10, 100, 1000] [5, 50, 5, 50] ()))
        ''CurveFitError''
   \<and> analyze_synaptic_io (\<lambda>call s. (Inl RuntimeError, s))
        [''Input'' \<mapsto> [1, 10, 100, 1000], ''Output'' \<mapsto> [5, 50, 5, 50]] ()
     = (Inl RuntimeError, ())
   \<and> \<not> raises (fst (analyze_synaptic_io (\<lambda>call s. (Inl RuntimeError, s))
        [''Input'' \<mapsto> [1, 10, 100, 1000], ''Output'' \<mapsto> [5, 50, 5, 50]] ())) ''CurveFitError''"
  by (simp add: fit_dose_response_def analyze_synaptic_io_def raises_def isinstance_def
      RuntimeError_def AnalysisError_def)

text \<open>
  C7 (amended). For every dose-response dataset on which the optimizer fails to
  converge (\<^verbatim>\<open>curve_fit\<close> raises \<^verbatim>\<open>RuntimeError\<close>), \<^verbatim>\<open>fit_dose_response\<close>
  fails by raising \<^verbatim>\<open>AnalysisError\<close> chained from that error, in the state the
  optimizer was left in by its single invocation. No fitting function retries:
  \<^verbatim>\<open>fit_dose_response\<close> invokes the optimizer exactly once and
  \<^verbatim>\<open>analyze_synaptic_io\<close> at most once, whatever the outcome.
\<close>

theorem fit_failure_raised_without_retry:
  assumes "curve_fit (dose_response_call doses responses) s = (Inl e, s')"
    and "isinstance e ''RuntimeError''"
  shows "fit_dose_response curve_fit doses responses s = (Inl (AnalysisError (Some e)), s')
       \<and> fst (snd (fit_dose_response (counted curve_fit) doses responses (n, s))) = n + 1
       \<and> fst (snd (analyze_synaptic_io (counted curve_fit) data (n, s))) \<le> n + 1"
proof -
  from assms have "fit_dose_response curve_fit doses responses s
      = (Inl (AnalysisError (Some e)), s')"
    by (simp add: fit_dose_response_def)
  moreover note fit_dose_response_calls_once [of curve_fit doses responses n s]
  moreover note analyze_synaptic_io_calls_at_most_once [of curve_fit data n s]
  ultimately show ?thesis by blast
qed

text \<open>
  The witness uses the optimizer that fails on its first invocation and would succeed
  on the second: the failure is raised, and the state shows one invocation.
\<close>

theorem fit_failure_raised_without_retry_witness:
  "fails_first (dose_response_call [1, 10, 100, 1000] [5, 50, 5, 50]) 0 = (Inl RuntimeError, 1)
   \<and> isinstance RuntimeError ''RuntimeError''
   \<and> fit_dose_response fails_first [1, 10, 100, 1000] [5, 50, 5, 50] 0
     = (Inl (AnalysisError (Some RuntimeError)), 1)
   \<and> fst (snd (fit_dose_response (counted fails_first) [1, 10, 100, 1000] [5, 50, 5, 50] (0, 0))) = 0 + 1"
proof -
  have a: "fails_first (dose_response_call [1, 10, 100, 1000] [5, 50, 5, 50]) 0 = (Inl RuntimeError, 1)"
    by (simp add: fails_first_def)
  have b: "isinstance RuntimeError ''RuntimeError''"
    by (simp add: isinstance_def RuntimeError_def)
  from fit_failure_raised_without_retry
    [of fails_first "[1, 10, 100, 1000]" "[5, 50, 5, 50]" 0 RuntimeError 1 0 Map.empty, OF a b] a b
  show ?thesis by blast
qed

section \<open>Properties of loading\<close>

lemma ap_load_data_reader_failure:
  assumes "pyabf_ABF rd file_path = Inl e"
  shows "ap_load_data rd file_path ''abf'' = Inl e"
  using assms by (simp add: ap_load_data_def load_abf_data_def read_abf_def)

lemma pm_load_data_reader_failure:
  assumes "pyabf_ABF rd file_path = Inl e" and "isinstance e ''Exception''"
  shows "pm_load_data rd file_path ''abf'' = Inl (DataLoadingError (Some e))"
  using assms by (simp add: pm_load_data_def wrap_loading_error_def read_abf_def)

lemma pm_load_data_neo_reader_failure:
  assumes "neo_read_block rd file_path = Inl e" and "isinstance e ''Exception''"
  shows "pm_load_data rd file_path ''neo'' = Inl (DataLoadingError (Some e))"
  using assms by (simp add: pm_load_data_def wrap_loading_error_def read_neo_def)

lemma pm_load_data_unsupported_type:
  assumes "file_type \<noteq> ''abf''" and "file_type \<noteq> ''neo''"
  shows "pm_load_data rd file_path file_type = Inl (DataLoadingError None)"
  using assms by (simp add: pm_load_data_def)

text \<open>
  C8. Loading a nonexistent path raises DataLoadingError and lets no lower-level
  exception escape. \<^verbatim>\<open>load_data\<close> of the pharmacological script does so; the
  functions of the same name in the other three scripts do not: the action-potential
  script lets the reader's exception through, the network script raises a
  \<^verbatim>\<open>ValueError\<close>, the synaptic script lets \<^verbatim>\<open>FileNotFoundError\<close> through.
\<close>

theorem load_data_missing_file:
  "pm_load_data missing_file_readers ''data/example_data.abf'' ''abf''
     = Inl (DataLoadingError (Some ValueError))
   \<and> raises (pm_load_data missing_file_readers ''data/example_data.abf'' ''abf'')
        ''DataLoadingError''
   \<and> ap_load_data missing_file_readers ''data/example_data.abf'' ''abf'' = Inl ValueError
   \<and> \<not> raises (ap_load_data missing_file_readers ''data/example_data.abf'' ''abf'')
        ''DataLoadingError''
   \<and> ap_load_data missing_file_readers ''data/example_data.h5'' ''neo'' = Inl FileNotFoundError
   \<and> nd_load_data missing_file_readers ''data/example_data.h5'' = Inl ValueError
   \<and> io_load_data missing_file_readers ''../../data/synaptic_io_data.csv''
       = Inl FileNotFoundError"
  by (simp add: pm_load_data_def ap_load_data_def nd_load_data_def io_load_data_def
      load_abf_data_def load_neo_data_def read_abf_def read_neo_def wrap_loading_error_def
      missing_file_readers_def raises_def isinstance_def ValueError_def FileNotFoundError_def
      DataLoadingError_def)

end
